theory Spec2Isabelle
  imports Complex_Main "HOL-Library.AList" "HOL-Library.Product_Lexorder"
begin

section \<open>Data model\<close>

text \<open>
  A data point is the dictionary \<^verbatim>\<open>{'x', 'y', 'z', 'col', 'row'}\<close> that
  \<^verbatim>\<open>read_horizon_file\<close> builds for every parsed data line. The grid indices are
  Python integers (unbounded). The coordinates \<open>x\<close> and \<open>y\<close> are Python floats; they are
  idealised as reals, so rounding, infinities and NaN coordinates are outside the model.
  The program never computes with \<open>z\<close> itself: it only hands the values to
  \<^verbatim>\<open>scipy.interpolate.griddata\<close> and tests the results with \<^verbatim>\<open>numpy.isnan\<close>.
  The type of \<open>z\<close> is therefore left open (\<open>'z\<close>).
\<close>

record 'z point =
  p_x :: real
  p_y :: real
  p_z :: 'z
  p_col :: int
  p_row :: int

type_synonym key = "int \<times> int"

type_synonym 'z triple = "real \<times> real \<times> 'z"

text \<open>
  A Python \<^verbatim>\<open>dict\<close> keeps its keys in insertion order, and that order decides which
  axis keys are sampled by the spacing inference and in which order candidates are
  emitted. Dictionaries are association lists with distinct keys: \<open>AList.update\<close>
  overwrites the value of a key in place and appends a new key at the end, as
  \<^verbatim>\<open>d[k] = v\<close> does.
\<close>

type_synonym 'z point_store = "(key \<times> 'z triple) list"

type_synonym axis_index = "(int \<times> int list) list"

text \<open>A candidate: its \<^verbatim>\<open>need_interp_indices\<close> entry and its \<^verbatim>\<open>need_interp_points\<close> entry.\<close>

type_synonym candidate = "key \<times> (real \<times> real)"

datatype error = ValueError | KeyError | ZeroDivisionError

datatype interp_method = Linear | Cubic | Nearest

section \<open>Point Store and Axis Index\<close>

text \<open>
  \<^verbatim>\<open>col_row_map = {(p['col'], p['row']): (p['x'], p['y'], p['z']) for p in data_points}\<close>
\<close>

definition col_row_map :: "'z point list \<Rightarrow> 'z point_store" where
  "col_row_map data_points =
     fold (\<lambda>p m. AList.update (p_col p, p_row p) (p_x p, p_y p, p_z p) m) data_points []"

text \<open>
  One step of the loop that fills \<^verbatim>\<open>col_to_rows\<close> (and, with the roles of
  \<open>col\<close> and \<open>row\<close> exchanged, \<^verbatim>\<open>row_to_cols\<close>):
  \<^verbatim>\<open>if col not in col_to_rows: col_to_rows[col] = []\<close> followed by
  \<^verbatim>\<open>col_to_rows[col].append(row)\<close>.
\<close>

definition group_step ::
  "('p \<Rightarrow> int) \<Rightarrow> ('p \<Rightarrow> int) \<Rightarrow> 'p \<Rightarrow> axis_index \<Rightarrow> axis_index" where
  "group_step kf vf p d =
     AList.map_entry (kf p) (\<lambda>vs. vs @ [vf p])
       (if kf p \<in> set (map fst d) then d else d @ [(kf p, [])])"

text \<open>
  The grouping loop followed by
  \<^verbatim>\<open>for col in col_to_rows: col_to_rows[col] = sorted(set(col_to_rows[col]))\<close>.
\<close>

definition axis_index :: "('p \<Rightarrow> int) \<Rightarrow> ('p \<Rightarrow> int) \<Rightarrow> 'p list \<Rightarrow> axis_index" where
  "axis_index kf vf data_points =
     map (\<lambda>(k, vs). (k, sort (remdups vs))) (fold (group_step kf vf) data_points [])"

definition col_to_rows :: "'z point list \<Rightarrow> axis_index" where
  "col_to_rows data_points = axis_index p_col p_row data_points"

definition row_to_cols :: "'z point list \<Rightarrow> axis_index" where
  "row_to_cols data_points = axis_index p_row p_col data_points"

section \<open>Spacing inference\<close>

text \<open>
  The gaps of one axis entry:
  \<^verbatim>\<open>if len(rows) > 1: for i in range(len(rows) - 1): interval = rows[i+1] - rows[i];
  if interval > 0: row_intervals_all.append(interval)\<close>.
\<close>

definition intervals :: "int list \<Rightarrow> int list" where
  "intervals rows =
     (if length rows > 1
      then filter (\<lambda>interval. interval > 0)
             (map (\<lambda>i. rows ! (i + 1) - rows ! i) [0..<length rows - 1])
      else [])"

text \<open>\<^verbatim>\<open>for col, rows in list(col_to_rows.items())[:100]\<close>\<close>

definition intervals_all :: "axis_index \<Rightarrow> int list" where
  "intervals_all ax = concat (map (\<lambda>(k, vs). intervals vs) (take 100 ax))"

text \<open>
  \<^verbatim>\<open>Counter(xs)\<close>: a dictionary from each element to its number of occurrences,
  keys in order of first occurrence.
\<close>

definition counter :: "int list \<Rightarrow> (int \<times> nat) list" where
  "counter xs = fold (\<lambda>x c. map_default x 1 (\<lambda>n. n + 1) c) xs []"

text \<open>
  \<^verbatim>\<open>max(items, key=lambda x: x[1])\<close> returns the first item whose count is maximal:
  a later item replaces the current best only when its count is strictly greater.
\<close>

fun max_by :: "('a \<Rightarrow> nat) \<Rightarrow> 'a \<Rightarrow> 'a list \<Rightarrow> 'a" where
  "max_by f best [] = best"
| "max_by f best (x # xs) = max_by f (if f best < f x then x else best) xs"

definition infer_spacing :: "int list \<Rightarrow> int" where
  "infer_spacing intervals_all_list =
     (if intervals_all_list \<noteq> [] then
        (let interval_counts = counter intervals_all_list;
             filtered = filter (\<lambda>(k, v). k > 1) interval_counts
         in case filtered of
              [] \<Rightarrow> 4
            | item # items \<Rightarrow> fst (max_by snd item items))
      else 4)"

definition col_spacing :: "'z point list \<Rightarrow> int" where
  "col_spacing data_points = infer_spacing (intervals_all (row_to_cols data_points))"

definition row_spacing :: "'z point list \<Rightarrow> int" where
  "row_spacing data_points = infer_spacing (intervals_all (col_to_rows data_points))"

section \<open>Gap Generator\<close>

text \<open>
  Python's \<^verbatim>\<open>range(start, stop, step)\<close>: a zero step raises \<^verbatim>\<open>ValueError\<close>; the
  number of elements is the one CPython computes.
\<close>

definition py_range :: "int \<Rightarrow> int \<Rightarrow> int \<Rightarrow> error + int list" where
  "py_range start stop step =
     (if step = 0 then Inl ValueError
      else if step > 0
      then Inr (map (\<lambda>k. start + int k * step) [0..<nat ((stop - start + step - 1) div step)])
      else Inr (map (\<lambda>k. start + int k * step) [0..<nat ((start - stop - step - 1) div (- step))]))"

text \<open>
  A \<^verbatim>\<open>for\<close> loop whose body appends to the candidate lists; an exception raised by
  the body ends the loop (and the run).
\<close>

fun traverse :: "('a \<Rightarrow> error + 'b list) \<Rightarrow> 'a list \<Rightarrow> error + 'b list" where
  "traverse f [] = Inr []"
| "traverse f (a # as) =
     (case f a of
        Inl e \<Rightarrow> Inl e
      | Inr bs \<Rightarrow> (case traverse f as of Inl e \<Rightarrow> Inl e | Inr cs \<Rightarrow> Inr (bs @ cs)))"

text \<open>\<^verbatim>\<open>col_row_map[k]\<close> raises \<^verbatim>\<open>KeyError\<close> on a missing key.\<close>

definition lookup :: "'z point_store \<Rightarrow> key \<Rightarrow> error + 'z triple" where
  "lookup m k = (case map_of m k of None \<Rightarrow> Inl KeyError | Some v \<Rightarrow> Inr v)"

text \<open>
  The body of the column pass for one \<open>new_row\<close>: \<open>y\<close> is interpolated between the two
  neighbours of the column, \<open>x\<close> is the one of \<open>current_row\<close>. The division is Python's
  true division of two integers.
\<close>

definition col_candidate ::
  "'z point_store \<Rightarrow> int \<Rightarrow> int \<Rightarrow> int \<Rightarrow> int \<Rightarrow> error + candidate" where
  "col_candidate crm col current_row next_row new_row =
     (case lookup crm (col, current_row) of
        Inl e \<Rightarrow> Inl e
      | Inr (x1, y1, z1) \<Rightarrow>
          (case lookup crm (col, next_row) of
             Inl e \<Rightarrow> Inl e
           | Inr (x2, y2, z2) \<Rightarrow>
               if next_row - current_row = 0 then Inl ZeroDivisionError
               else
                 (let ratio = real_of_int (new_row - current_row)
                                / real_of_int (next_row - current_row);
                      new_y = y1 + (y2 - y1) * ratio;
                      new_x = x1
                  in Inr ((col, new_row), (new_x, new_y)))))"

text \<open>The body of the row pass for one \<open>new_col\<close>: \<open>x\<close> is interpolated, \<open>y\<close> is kept.\<close>

definition row_candidate ::
  "'z point_store \<Rightarrow> int \<Rightarrow> int \<Rightarrow> int \<Rightarrow> int \<Rightarrow> error + candidate" where
  "row_candidate crm row current_col next_col new_col =
     (case lookup crm (current_col, row) of
        Inl e \<Rightarrow> Inl e
      | Inr (x1, y1, z1) \<Rightarrow>
          (case lookup crm (next_col, row) of
             Inl e \<Rightarrow> Inl e
           | Inr (x2, y2, z2) \<Rightarrow>
               if next_col - current_col = 0 then Inl ZeroDivisionError
               else
                 (let ratio = real_of_int (new_col - current_col)
                                / real_of_int (next_col - current_col);
                      new_x = x1 + (x2 - x1) * ratio;
                      new_y = y1
                  in Inr ((new_col, row), (new_x, new_y)))))"

text \<open>
  The innermost loop of either pass, between two neighbours \<open>current\<close> and \<open>next\<close>:
  \<^verbatim>\<open>for new in range(current + target_spacing, next, target_spacing):
  if key not in new_points: ...\<close>. The dictionary \<^verbatim>\<open>new_points\<close> is the one built
  before the passes; the passes only append to the two candidate lists.
\<close>

definition gap_candidates ::
  "(int \<Rightarrow> key) \<Rightarrow> (int \<Rightarrow> error + candidate) \<Rightarrow> 'z point_store \<Rightarrow> int \<Rightarrow> int \<Rightarrow> int
     \<Rightarrow> error + candidate list" where
  "gap_candidates mk body new_points target_spacing current nxt =
     (case py_range (current + target_spacing) nxt target_spacing of
        Inl e \<Rightarrow> Inl e
      | Inr news \<Rightarrow>
          traverse
            (\<lambda>n. if mk n \<notin> set (map fst new_points)
                 then (case body n of Inl e \<Rightarrow> Inl e | Inr c \<Rightarrow> Inr [c])
                 else Inr [])
            news)"

text \<open>
  The two outer loops of a pass:
  \<^verbatim>\<open>for col, rows in col_to_rows.items(): for i in range(len(rows) - 1): ...\<close>
  with \<open>current = rows[i]\<close> and \<open>next = rows[i+1]\<close>.
\<close>

definition axis_pass ::
  "(int \<Rightarrow> int \<Rightarrow> int \<Rightarrow> error + candidate list) \<Rightarrow> axis_index \<Rightarrow> error + candidate list" where
  "axis_pass gap ax =
     traverse
       (\<lambda>(k, vs). traverse (\<lambda>i. gap k (vs ! i) (vs ! (i + 1))) [0..<length vs - 1])
       ax"

definition col_gap ::
  "'z point_store \<Rightarrow> 'z point_store \<Rightarrow> int \<Rightarrow> int \<Rightarrow> int \<Rightarrow> int \<Rightarrow> error + candidate list" where
  "col_gap crm new_points target_spacing col current_row next_row =
     gap_candidates (\<lambda>new_row. (col, new_row)) (col_candidate crm col current_row next_row)
       new_points target_spacing current_row next_row"

definition row_gap ::
  "'z point_store \<Rightarrow> 'z point_store \<Rightarrow> int \<Rightarrow> int \<Rightarrow> int \<Rightarrow> int \<Rightarrow> error + candidate list" where
  "row_gap crm new_points target_spacing row current_col next_col =
     gap_candidates (\<lambda>new_col. (new_col, row)) (row_candidate crm row current_col next_col)
       new_points target_spacing current_col next_col"

definition col_pass ::
  "'z point_store \<Rightarrow> 'z point_store \<Rightarrow> int \<Rightarrow> axis_index \<Rightarrow> error + candidate list" where
  "col_pass crm new_points target_spacing ctr = axis_pass (col_gap crm new_points target_spacing) ctr"

definition row_pass ::
  "'z point_store \<Rightarrow> 'z point_store \<Rightarrow> int \<Rightarrow> axis_index \<Rightarrow> error + candidate list" where
  "row_pass crm new_points target_spacing rtc = axis_pass (row_gap crm new_points target_spacing) rtc"

text \<open>
  Both passes in program order. \<^verbatim>\<open>new_points\<close> starts as a copy of the Point Store
  (\<^verbatim>\<open>for (col, row), (x, y, z) in col_row_map.items(): new_points[(col, row)] = (x, y, z)\<close>)
  and is not changed while the candidates are generated.
\<close>

definition generate_candidates :: "'z point list \<Rightarrow> int \<Rightarrow> error + candidate list" where
  "generate_candidates data_points target_spacing =
     (let crm = col_row_map data_points;
          new_points = fold (\<lambda>(k, v) m. AList.update k v m) crm []
      in case col_pass crm new_points target_spacing (col_to_rows data_points) of
           Inl e \<Rightarrow> Inl e
         | Inr cs \<Rightarrow>
             (case row_pass crm new_points target_spacing (row_to_cols data_points) of
                Inl e \<Rightarrow> Inl e
              | Inr rs \<Rightarrow> Inr (cs @ rs)))"

text \<open>
  For a positive spacing, the values that \<^verbatim>\<open>range(current + T, next, T)\<close> runs
  through, written without the error case; \<open>py_range\<close> is shown to return them.
\<close>

definition steps :: "int \<Rightarrow> int \<Rightarrow> int \<Rightarrow> int list" where
  "steps T cur nxt = map (\<lambda>k. cur + T + int k * T) [0..<nat ((nxt - cur - 1) div T)]"

section \<open>Value Estimator\<close>

text \<open>
  \<^verbatim>\<open>scipy.interpolate.griddata(points, values, xi, method=m, fill_value=nan)\<close> builds an
  interpolant from the samples and evaluates it at every query point, one result per
  query point. The interpolant and \<^verbatim>\<open>numpy.isnan\<close> are parameters of the model;
  a run in which the library itself raises is not modelled.
\<close>

record 'z numlib =
  interp :: "interp_method \<Rightarrow> (real \<times> real) list \<Rightarrow> 'z list \<Rightarrow> real \<times> real \<Rightarrow> 'z"
  isnan :: "'z \<Rightarrow> bool"

definition griddata ::
  "'z numlib \<Rightarrow> (real \<times> real) list \<Rightarrow> 'z list \<Rightarrow> (real \<times> real) list \<Rightarrow> interp_method \<Rightarrow> 'z list" where
  "griddata lib points_xy values_z xi m = map (interp lib m points_xy values_z) xi"

text \<open>Boolean-mask indexing \<^verbatim>\<open>a[mask]\<close> and masked assignment \<^verbatim>\<open>a[mask] = b\<close>.\<close>

definition masked :: "bool list \<Rightarrow> 'a list \<Rightarrow> 'a list" where
  "masked flags xs = map snd (filter fst (zip flags xs))"

fun assign_masked :: "'a list \<Rightarrow> bool list \<Rightarrow> 'a list \<Rightarrow> 'a list" where
  "assign_masked (z # zs) (True # flags) (v # vs) = v # assign_masked zs flags vs"
| "assign_masked (z # zs) (b # flags) vs = z # assign_masked zs flags vs"
| "assign_masked zs flags vs = zs"

text \<open>
  The batched estimate with its fallback; the second component is
  \<^verbatim>\<open>np.sum(nan_mask)\<close>.
\<close>

definition estimate_z ::
  "'z numlib \<Rightarrow> interp_method \<Rightarrow> (real \<times> real) list \<Rightarrow> 'z list \<Rightarrow> (real \<times> real) list
     \<Rightarrow> 'z list \<times> nat" where
  "estimate_z lib m points_xy values_z interp_points_xy =
     (let z_interpolated = griddata lib points_xy values_z interp_points_xy m;
          nan_mask = map (isnan lib) z_interpolated
      in if True \<in> set nan_mask
         then
           (let z_nearest =
                  griddata lib points_xy values_z (masked nan_mask interp_points_xy) Nearest
            in (assign_masked z_interpolated nan_mask z_nearest, length (filter id nan_mask)))
         else (z_interpolated, 0))"

section \<open>Merger\<close>

text \<open>
  \<^verbatim>\<open>for i, (new_col, new_row) in enumerate(need_interp_indices):
  new_points[(new_col, new_row)] = (need_interp_points[i][0], need_interp_points[i][1],
  float(z_interpolated[i]))\<close>
\<close>

definition add_results :: "candidate list \<Rightarrow> 'z list \<Rightarrow> 'z point_store \<Rightarrow> 'z point_store" where
  "add_results cands zs new_points =
     fold (\<lambda>((k, (x, y)), z) m. AList.update k (x, y, z) m) (zip cands zs) new_points"

record 'z densified =
  candidates :: "candidate list"
  nan_count :: nat
  new_points :: "'z point_store"
  sorted_points :: "'z point_store"

text \<open>
  The computation of \<^verbatim>\<open>interpolate_horizon\<close> between reading and writing: candidate
  generation, batched estimate, insertion of the results into \<^verbatim>\<open>new_points\<close> and
  \<^verbatim>\<open>sorted(new_points.items(), key=lambda x: (x[0][0], x[0][1]))\<close>.
\<close>

definition densify :: "'z numlib \<Rightarrow> 'z point list \<Rightarrow> int \<Rightarrow> interp_method \<Rightarrow> error + 'z densified" where
  "densify lib data_points target_spacing m =
     (case generate_candidates data_points target_spacing of
        Inl e \<Rightarrow> Inl e
      | Inr cands \<Rightarrow>
          (let crm = col_row_map data_points;
               points_xy = map (\<lambda>p. (p_x p, p_y p)) data_points;
               values_z = map p_z data_points;
               new_points0 = fold (\<lambda>(k, v) m. AList.update k v m) crm [];
               (zs, nans) =
                 (if length cands > 0
                  then estimate_z lib m points_xy values_z (map snd cands)
                  else ([], 0));
               new_points1 =
                 (if length cands > 0 then add_results cands zs new_points0 else new_points0)
           in Inr \<lparr>candidates = cands, nan_count = nans, new_points = new_points1,
                    sorted_points = sort_key fst new_points1\<rparr>))"

section \<open>Reading the input\<close>

text \<open>
  \<^verbatim>\<open>str.strip()\<close>, \<^verbatim>\<open>str.split()\<close> and \<^verbatim>\<open>str.startswith\<close>. Characters are
  bytes here; the whitespace characters are the ASCII ones that Python's \<^verbatim>\<open>str\<close>
  methods treat as whitespace.
\<close>

definition is_space :: "char \<Rightarrow> bool" where
  "is_space c =
     (c \<in> set [CHR 0x09, CHR 0x0A, CHR 0x0B, CHR 0x0C, CHR 0x0D,
               CHR 0x1C, CHR 0x1D, CHR 0x1E, CHR 0x1F, CHR 0x20])"

definition strip :: "string \<Rightarrow> string" where
  "strip s = rev (dropWhile is_space (rev (dropWhile is_space s)))"

definition startswith :: "string \<Rightarrow> string \<Rightarrow> bool" where
  "startswith s pre = (take (length pre) s = pre)"

fun split_acc :: "string \<Rightarrow> string \<Rightarrow> string list" where
  "split_acc cur [] = (if cur = [] then [] else [cur])"
| "split_acc cur (c # cs) =
     (if is_space c then (if cur = [] then split_acc [] cs else cur # split_acc [] cs)
      else split_acc (cur @ [c]) cs)"

definition split :: "string \<Rightarrow> string list" where
  "split s = split_acc [] s"

text \<open>
  \<^verbatim>\<open>float(s)\<close> and \<^verbatim>\<open>int(s)\<close> are parameters; \<open>None\<close> stands for
  \<^verbatim>\<open>ValueError\<close>.
\<close>

record 'z parser =
  to_float :: "string \<Rightarrow> real option"
  to_z :: "string \<Rightarrow> 'z option"
  to_int :: "string \<Rightarrow> int option"

definition parse_point :: "'z parser \<Rightarrow> string list \<Rightarrow> 'z point option" where
  "parse_point ps parts =
     (if length parts \<ge> 5 then
        (case to_float ps (parts ! 0) of None \<Rightarrow> None | Some x \<Rightarrow>
         case to_float ps (parts ! 1) of None \<Rightarrow> None | Some y \<Rightarrow>
         case to_z ps (parts ! 2) of None \<Rightarrow> None | Some z \<Rightarrow>
         case to_int ps (parts ! 3) of None \<Rightarrow> None | Some col \<Rightarrow>
         case to_int ps (parts ! 4) of None \<Rightarrow> None | Some row \<Rightarrow>
           Some \<lparr>p_x = x, p_y = y, p_z = z, p_col = col, p_row = row\<rparr>)
      else None)"

text \<open>The state of the reading loop: \<open>(header_lines, data_points, in_header)\<close>.\<close>

type_synonym 'z reader_state = "string list \<times> 'z point list \<times> bool"

definition read_line :: "'z parser \<Rightarrow> string \<Rightarrow> 'z reader_state \<Rightarrow> 'z reader_state" where
  "read_line ps line st =
     (case st of (header_lines, data_points, in_header) \<Rightarrow>
        (let line_stripped = strip line in
         if in_header \<or> line_stripped = [] \<or> startswith line_stripped ''#''
         then (header_lines @ [line], data_points,
               if startswith line_stripped ''# End:'' then False else in_header)
         else
           (case parse_point ps (split line_stripped) of
              Some p \<Rightarrow> (header_lines, data_points @ [p], in_header)
            | None \<Rightarrow> (header_lines, data_points, in_header))))"

text \<open>What opening and reading the input path gives.\<close>

datatype input_file = Not_Found | Unreadable | Content "string list"

datatype exit_reason = File_Not_Found | Read_Problem

definition read_horizon_file ::
  "'z parser \<Rightarrow> input_file \<Rightarrow> exit_reason + (string list \<times> 'z point list)" where
  "read_horizon_file ps file =
     (case file of
        Not_Found \<Rightarrow> Inl File_Not_Found
      | Unreadable \<Rightarrow> Inl Read_Problem
      | Content lines \<Rightarrow>
          (case fold (read_line ps) lines ([], [], True) of
             (header_lines, data_points, in_header) \<Rightarrow> Inr (header_lines, data_points)))"

text \<open>A parser of decimal integer literals, to run the reader on examples.\<close>

fun digits_value :: "nat \<Rightarrow> string \<Rightarrow> nat option" where
  "digits_value acc [] = Some acc"
| "digits_value acc (c # cs) =
     (if (48::nat) \<le> of_char c \<and> of_char c \<le> (57::nat)
      then digits_value (10 * acc + (of_char c - 48)) cs
      else None)"

definition int_literal :: "string \<Rightarrow> int option" where
  "int_literal s =
     (case s of
        [] \<Rightarrow> None
      | c # cs \<Rightarrow>
          if c = CHR ''-'' then (if cs = [] then None else map_option (\<lambda>n. - int n) (digits_value 0 cs))
          else map_option int (digits_value 0 s))"

definition literal_parser :: "real parser" where
  "literal_parser =
     \<lparr>to_float = (\<lambda>s. map_option real_of_int (int_literal s)),
      to_z = (\<lambda>s. map_option real_of_int (int_literal s)),
      to_int = int_literal\<rparr>"

section \<open>The densification run\<close>

text \<open>
  The lines the run prints, without the ones that report elapsed time, and how the run
  ends. The output file is written only at the end, in one piece: the header lines
  followed by one formatted line per entry of \<^verbatim>\<open>sorted_points\<close>.
\<close>

datatype message =
    Msg_Banner
  | Msg_Reading
  | Msg_File_Not_Found
  | Msg_Read_Problem
  | Msg_Read_Count nat
  | Msg_No_Data
  | Msg_Columns nat
  | Msg_Rows nat
  | Msg_Spacing int int
  | Msg_Target int
  | Msg_Method interp_method
  | Msg_Generating
  | Msg_Original nat
  | Msg_Need nat
  | Msg_Interp_Start interp_method
  | Msg_Nan_Found nat
  | Msg_No_New
  | Msg_Writing
  | Msg_Done nat nat nat
  | Msg_Saved

datatype ending = Returned | Exited nat | Raised error

record 'z run =
  printed :: "message list"
  written :: "(string list \<times> 'z point_store) option"
  ending :: ending

definition interpolate_horizon ::
  "'z parser \<Rightarrow> 'z numlib \<Rightarrow> input_file \<Rightarrow> int \<Rightarrow> interp_method \<Rightarrow> 'z run" where
  "interpolate_horizon ps lib input target_spacing m =
     (case read_horizon_file ps input of
        Inl File_Not_Found \<Rightarrow>
          \<lparr>printed = [Msg_Banner, Msg_Reading, Msg_File_Not_Found], written = None,
           ending = Exited 1\<rparr>
      | Inl Read_Problem \<Rightarrow>
          \<lparr>printed = [Msg_Banner, Msg_Reading, Msg_Read_Problem], written = None,
           ending = Exited 1\<rparr>
      | Inr (header_lines, data_points) \<Rightarrow>
          if length data_points = 0
          then \<lparr>printed = [Msg_Banner, Msg_Reading, Msg_Read_Count (length data_points), Msg_No_Data],
                written = None, ending = Returned\<rparr>
          else
            (let before =
                   [Msg_Banner, Msg_Reading, Msg_Read_Count (length data_points),
                    Msg_Columns (length (col_to_rows data_points)),
                    Msg_Rows (length (row_to_cols data_points)),
                    Msg_Spacing (col_spacing data_points) (row_spacing data_points),
                    Msg_Target target_spacing, Msg_Method m, Msg_Generating]
             in case densify lib data_points target_spacing m of
                  Inl e \<Rightarrow> \<lparr>printed = before, written = None, ending = Raised e\<rparr>
                | Inr d \<Rightarrow>
                    \<lparr>printed =
                       before
                       @ [Msg_Original (length (col_row_map data_points)),
                          Msg_Need (length (candidates d))]
                       @ (if length (candidates d) > 0
                          then Msg_Interp_Start m
                               # (if nan_count d > 0 then [Msg_Nan_Found (nan_count d)] else [])
                          else [Msg_No_New])
                       @ [Msg_Writing,
                          Msg_Done (length (sorted_points d)) (length (col_row_map data_points))
                            (length (candidates d)),
                          Msg_Saved],
                     written = Some (header_lines, sorted_points d),
                     ending = Returned\<rparr>))"

text \<open>
  A second run reads the file the first one wrote: one data point per entry of
  \<^verbatim>\<open>sorted_points\<close>, in that order. (The written coordinates are rounded to five
  decimals; the grid keys are written exactly.)
\<close>

definition points_of :: "'z point_store \<Rightarrow> 'z point list" where
  "points_of store =
     map (\<lambda>((col, row), (x, y, z)). \<lparr>p_x = x, p_y = y, p_z = z, p_col = col, p_row = row\<rparr>) store"

text \<open>
  The two tests the reading loop makes on a line: whether it ends the header, and, once
  the header has ended, whether it is still passed through as a header line.
\<close>

definition is_marker :: "string \<Rightarrow> bool" where
  "is_marker line = startswith (strip line) ''# End:''"

definition passed_through :: "string \<Rightarrow> bool" where
  "passed_through line = (strip line = [] \<or> startswith (strip line) ''#'')"

text \<open>
  The spacing of an axis in the words of the specification: the positive gaps between
  consecutive entries of the first 100 axis keys, without the gaps of size 1; the
  spacing is 4 when no such gap is left, and otherwise a gap size that no other gap size
  exceeds in frequency.
\<close>

definition consecutive_gaps :: "int list \<Rightarrow> int list" where
  "consecutive_gaps vs = map (\<lambda>(a, b). b - a) (zip vs (tl vs))"

definition sampled_gaps :: "axis_index \<Rightarrow> int list" where
  "sampled_gaps ax =
     filter (\<lambda>g. 0 < g) (concat (map (\<lambda>(k, vs). consecutive_gaps vs) (take 100 ax)))"

definition is_spacing_of :: "int \<Rightarrow> axis_index \<Rightarrow> bool" where
  "is_spacing_of s ax =
     (let qualifying = filter (\<lambda>g. g \<noteq> 1) (sampled_gaps ax)
      in if qualifying = [] then s = 4
         else s \<in> set qualifying
              \<and> (\<forall>g\<in>set qualifying. count_list qualifying g \<le> count_list qualifying s))"

section \<open>Example inputs\<close>

text \<open>
  A stand-in for the library, to run examples: every kind of interpolation returns the value of the
  nearest sample (the first one among equally near samples), and no value is NaN.
\<close>

definition sqdist :: "real \<times> real \<Rightarrow> real \<times> real \<Rightarrow> real" where
  "sqdist p q = (fst p - fst q) * (fst p - fst q) + (snd p - snd q) * (snd p - snd q)"

fun nearest_of :: "real \<times> real \<Rightarrow> ((real \<times> real) \<times> 'z) list \<Rightarrow> (real \<times> real) \<times> 'z \<Rightarrow> 'z" where
  "nearest_of q [] best = snd best"
| "nearest_of q (s # ss) best =
     nearest_of q ss (if sqdist (fst s) q < sqdist (fst best) q then s else best)"

definition nearest_lib :: "real numlib" where
  "nearest_lib =
     \<lparr>interp = (\<lambda>m points_xy values_z q.
                  case zip points_xy values_z of [] \<Rightarrow> 0 | s # ss \<Rightarrow> nearest_of q ss s),
      isnan = (\<lambda>z. False)\<rparr>"

definition pt :: "int \<Rightarrow> int \<Rightarrow> real \<Rightarrow> real \<Rightarrow> real \<Rightarrow> real point" where
  "pt col row x y z = \<lparr>p_x = x, p_y = y, p_z = z, p_col = col, p_row = row\<rparr>"

text \<open>
  Four points in the shape of a cross around the empty grid position \<open>(1, 1)\<close>:
  column 1 has rows 0 and 2, row 1 has columns 0 and 2.
\<close>

definition cross_points :: "real point list" where
  "cross_points = [pt 1 0 10 0 5, pt 1 2 10 20 6, pt 0 1 0 10 7, pt 2 1 30 10 8]"

text \<open>One column with rows 0, 2, 4 and 10: the most frequent gap is 2, the largest one is 6.\<close>

definition uneven_column :: "real point list" where
  "uneven_column = [pt 0 0 0 0 1, pt 0 2 0 2 1, pt 0 4 0 4 1, pt 0 10 0 10 1]"

text \<open>Row 0 has columns 0 and 2; column 1 has the single row 3.\<close>

definition offset_points :: "real point list" where
  "offset_points = [pt 0 0 0 0 1, pt 2 0 2 0 1, pt 1 3 1 3 1]"

text \<open>The scenario of two columns 0 and 2 that share the rows 0 and 8.\<close>

definition two_columns :: "real point list" where
  "two_columns = [pt 0 0 0 0 1, pt 0 8 0 8 2, pt 2 0 2 0 3, pt 2 8 2 8 4]"

section \<open>Dictionaries and the Axis Index\<close>

lemma update_fresh: "k \<notin> set (map fst m) \<Longrightarrow> AList.update k v m = m @ [(k, v)]"
  by (induction m) auto

lemma fold_update_keys:
  "set (map fst (fold (\<lambda>p m. AList.update (kf p) (vf p) m) ps m0)) = set (map fst m0) \<union> kf ` set ps"
  by (induction ps arbitrary: m0) (auto simp: AList.dom_update)

lemma fold_update_distinct:
  "distinct (map fst m0) \<Longrightarrow> distinct (map fst (fold (\<lambda>p m. AList.update (kf p) (vf p) m) ps m0))"
  by (induction ps arbitrary: m0) (auto simp: AList.distinct_update)

lemma col_row_map_keys: "set (map fst (col_row_map dps)) = (\<lambda>p. (p_col p, p_row p)) ` set dps"
  unfolding col_row_map_def
  using fold_update_keys [of "\<lambda>p. (p_col p, p_row p)" "\<lambda>p. (p_x p, p_y p, p_z p)" dps "[]"] by simp

lemma col_row_map_distinct: "distinct (map fst (col_row_map dps))"
  unfolding col_row_map_def by (rule fold_update_distinct) simp

lemma fold_update_copy:
  "distinct (map fst (m0 @ xs)) \<Longrightarrow> fold (\<lambda>(k, v) m. AList.update k v m) xs m0 = m0 @ xs"
proof (induction xs arbitrary: m0)
  case Nil
  then show ?case by simp
next
  case (Cons a xs)
  obtain k v where a: "a = (k, v)" by (cases a)
  from Cons.prems a have fresh: "k \<notin> set (map fst m0)" by auto
  from Cons.prems a have "distinct (map fst ((m0 @ [(k, v)]) @ xs))" by auto
  from Cons.IH [OF this] show ?case using a fresh by (simp add: update_fresh)
qed

lemma new_points_copy:
  "fold (\<lambda>(k, v) m. AList.update k v m) (col_row_map dps) [] = col_row_map dps"
  using fold_update_copy [of "[]" "col_row_map dps"] by (simp add: col_row_map_distinct)

lemma group_step_keys: "fst ` set (group_step kf vf p d) = insert (kf p) (fst ` set d)"
  by (auto simp: group_step_def AList.dom_map_entry)

lemma group_step_distinct: "distinct (map fst d) \<Longrightarrow> distinct (map fst (group_step kf vf p d))"
  by (auto simp: group_step_def intro!: AList.distinct_map_entry)

lemma group_step_lookup:
  "map_of (group_step kf vf p d) k =
     (if k = kf p then Some ((case map_of d k of None \<Rightarrow> [] | Some vs \<Rightarrow> vs) @ [vf p])
      else map_of d k)"
proof (cases "kf p \<in> set (map fst d)")
  case True
  then show ?thesis
    by (auto simp: group_step_def AList.map_of_map_entry map_of_eq_None_iff split: option.splits)
next
  case False
  then have "map_of d (kf p) = None" by (simp add: map_of_eq_None_iff)
  with False show ?thesis
    by (auto simp: group_step_def AList.map_of_map_entry map_add_def split: option.splits)
qed

lemma group_fold_keys:
  "fst ` set (fold (group_step kf vf) ps d) = fst ` set d \<union> kf ` set ps"
  by (induction ps arbitrary: d) (simp_all add: group_step_keys)

lemma group_fold_distinct:
  "distinct (map fst d) \<Longrightarrow> distinct (map fst (fold (group_step kf vf) ps d))"
  by (induction ps arbitrary: d) (auto simp: group_step_distinct)

lemma group_fold_lookup:
  "map_of (fold (group_step kf vf) ps d) k =
     (if k \<in> fst ` set d \<union> kf ` set ps
      then Some ((case map_of d k of None \<Rightarrow> [] | Some vs \<Rightarrow> vs) @ map vf (filter (\<lambda>p. kf p = k) ps))
      else None)"
proof (induction ps arbitrary: d)
  case Nil
  show ?case
    by (auto simp: map_of_eq_None_iff split: option.splits)
next
  case (Cons p ps)
  show ?case
    by (simp add: Cons.IH group_step_keys group_step_lookup)
qed

lemma axis_index_keys: "fst ` set (axis_index kf vf ps) = kf ` set ps"
proof -
  have "map fst (axis_index kf vf ps) = map fst (fold (group_step kf vf) ps [])"
    by (simp add: axis_index_def comp_def case_prod_beta)
  then have "set (map fst (axis_index kf vf ps)) = set (map fst (fold (group_step kf vf) ps []))"
    by simp
  then show ?thesis by (simp add: group_fold_keys)
qed

lemma axis_index_distinct: "distinct (map fst (axis_index kf vf ps))"
proof -
  have "map fst (axis_index kf vf ps) = map fst (fold (group_step kf vf) ps [])"
    by (simp add: axis_index_def comp_def case_prod_beta)
  then show ?thesis using group_fold_distinct [of "[]" kf vf ps] by simp
qed

lemma axis_index_entry:
  assumes "(k, vs) \<in> set (axis_index kf vf ps)"
  shows "vs = sort (remdups (map vf (filter (\<lambda>p. kf p = k) ps)))"
proof -
  from assms obtain ws where ws: "(k, ws) \<in> set (fold (group_step kf vf) ps [])"
    and vs: "vs = sort (remdups ws)"
    by (auto simp: axis_index_def)
  have "distinct (map fst (fold (group_step kf vf) ps []))"
    by (rule group_fold_distinct) simp
  with ws have "map_of (fold (group_step kf vf) ps []) k = Some ws" by simp
  then have "ws = map vf (filter (\<lambda>p. kf p = k) ps)"
    by (simp add: group_fold_lookup split: if_splits)
  with vs show ?thesis by simp
qed

lemma axis_index_set:
  assumes "(k, vs) \<in> set (axis_index kf vf ps)"
  shows "set vs = vf ` {p \<in> set ps. kf p = k}"
  using axis_index_entry [OF assms] by auto

lemma axis_index_strict:
  assumes "(k, vs) \<in> set (axis_index kf vf ps)"
  shows "sorted_wrt (<) vs"
  using axis_index_entry [OF assms] by (simp add: strict_sorted_iff)

lemma strict_sorted_nth_less:
  fixes vs :: "int list"
  assumes "sorted_wrt (<) vs" "Suc i < length vs"
  shows "vs ! i < vs ! Suc i"
  using assms by (simp add: sorted_wrt_nth_less)

lemma strict_sorted_no_between:
  fixes vs :: "int list"
  assumes "sorted_wrt (<) vs" "Suc i < length vs" "x \<in> set vs"
  shows "\<not> (vs ! i < x \<and> x < vs ! Suc i)"
proof -
  from assms(3) obtain j where j: "j < length vs" "x = vs ! j"
    by (auto simp: in_set_conv_nth)
  show ?thesis
  proof (cases "j \<le> i")
    case True
    then have "vs ! j \<le> vs ! i"
      using assms(1,2) by (cases "j = i") (auto simp: sorted_wrt_nth_less less_imp_le)
    with j show ?thesis by simp
  next
    case False
    then have "vs ! Suc i \<le> vs ! j"
      using assms(1) j(1) by (cases "j = Suc i") (auto simp: sorted_wrt_nth_less less_imp_le)
    with j show ?thesis by simp
  qed
qed

lemma traverse_total:
  "(\<And>a. a \<in> set as \<Longrightarrow> f a = Inr (g a)) \<Longrightarrow> traverse f as = Inr (concat (map g as))"
  by (induction as) auto

lemma py_range_steps: "0 < T \<Longrightarrow> py_range (cur + T) nxt T = Inr (steps T cur nxt)"
  by (simp add: py_range_def steps_def)

lemma div_times_le:
  fixes q T :: int
  assumes "0 < T"
  shows "(q div T) * T \<le> q"
proof -
  have "T * (q div T) + q mod T = q" by (rule mult_div_mod_eq)
  moreover have "0 \<le> q mod T" using assms by simp
  ultimately have "T * (q div T) \<le> q" by linarith
  then show ?thesis by (simp add: mult.commute)
qed

lemma le_div_times:
  fixes q T k :: int
  assumes "0 < T" "k * T \<le> q"
  shows "k \<le> q div T"
proof -
  have "(k * T) div T \<le> q div T" using assms by (intro zdiv_mono1) auto
  then show ?thesis using assms by simp
qed

lemma set_steps:
  assumes "0 < T"
  shows "set (steps T cur nxt) = {r. \<exists>k\<ge>1. r = cur + k * T \<and> r < nxt}"
proof (intro set_eqI iffI)
  fix r assume "r \<in> set (steps T cur nxt)"
  then obtain k where k: "k < nat ((nxt - cur - 1) div T)" "r = cur + T + int k * T"
    by (auto simp: steps_def)
  from k(1) have "int k + 1 \<le> (nxt - cur - 1) div T" by linarith
  then have "(int k + 1) * T \<le> ((nxt - cur - 1) div T) * T"
    using assms by (simp add: mult_right_mono)
  also have "\<dots> \<le> nxt - cur - 1"
    using assms by (rule div_times_le)
  finally have "r < nxt" using k(2) by (simp add: algebra_simps)
  moreover have "r = cur + (int k + 1) * T" using k(2) by (simp add: algebra_simps)
  moreover have "1 \<le> int k + 1" by simp
  ultimately show "r \<in> {r. \<exists>k\<ge>1. r = cur + k * T \<and> r < nxt}" by blast
next
  fix r assume "r \<in> {r. \<exists>k\<ge>1. r = cur + k * T \<and> r < nxt}"
  then obtain k where k: "1 \<le> k" "r = cur + k * T" "r < nxt" by auto
  from k have "k * T \<le> nxt - cur - 1" by simp
  with assms have "k \<le> (nxt - cur - 1) div T"
    by (rule le_div_times)
  then have "nat (k - 1) < nat ((nxt - cur - 1) div T)" using k(1) by linarith
  then have "nat (k - 1) \<in> set [0..<nat ((nxt - cur - 1) div T)]" by simp
  moreover have "r = cur + T + int (nat (k - 1)) * T" using k(1,2) by (simp add: algebra_simps)
  ultimately have "r \<in> (\<lambda>k. cur + T + int k * T) ` set [0..<nat ((nxt - cur - 1) div T)]"
    by (rule rev_image_eqI)
  then show "r \<in> set (steps T cur nxt)" unfolding steps_def by simp
qed

section \<open>Loops of the Gap Generator\<close>

lemma traverse_Inr_set:
  "traverse f as = Inr bs \<Longrightarrow> set bs = (\<Union>a\<in>set as. set (projr (f a))) \<and> (\<forall>a\<in>set as. \<exists>cs. f a = Inr cs)"
proof (induction as arbitrary: bs)
  case Nil
  then show ?case by simp
next
  case (Cons a as)
  from Cons.prems obtain cs ds where fa: "f a = Inr cs" and tr: "traverse f as = Inr ds"
    and bs: "bs = cs @ ds"
    by (auto split: sum.splits)
  from Cons.IH [OF tr] fa bs show ?case by auto
qed

lemma traverse_Inr_mem:
  assumes "traverse f as = Inr bs" "c \<in> set bs"
  shows "\<exists>a\<in>set as. \<exists>cs. f a = Inr cs \<and> c \<in> set cs"
proof -
  from traverse_Inr_set [OF assms(1)] assms(2) obtain a where
    a: "a \<in> set as" "c \<in> set (projr (f a))" and "\<exists>cs. f a = Inr cs"
    by auto
  then obtain cs where "f a = Inr cs" by blast
  with a show ?thesis by auto
qed

lemma gap_candidates_total:
  assumes "0 < T"
    and "\<And>n. n \<in> set (steps T cur nxt) \<Longrightarrow> mk n \<notin> fst ` set np \<and> body n = Inr (g n)"
  shows "gap_candidates mk body np T cur nxt = Inr (map g (steps T cur nxt))"
proof -
  have "traverse (\<lambda>n. if mk n \<notin> set (map fst np)
                 then (case body n of Inl e \<Rightarrow> Inl e | Inr c \<Rightarrow> Inr [c])
                 else Inr []) (steps T cur nxt)
        = Inr (concat (map (\<lambda>n. [g n]) (steps T cur nxt)))"
    by (rule traverse_total) (use assms(2) in auto)
  moreover have "concat (map (\<lambda>n. [g n]) (steps T cur nxt)) = map g (steps T cur nxt)"
    by (induction "steps T cur nxt") auto
  ultimately show ?thesis
    using assms(1) by (simp add: gap_candidates_def py_range_steps)
qed

lemma gap_candidates_guard:
  assumes "gap_candidates mk body np T cur nxt = Inr cs"
    and "\<And>n c. body n = Inr c \<Longrightarrow> fst c = mk n"
  shows "fst ` set cs \<inter> fst ` set np = {}"
proof -
  from assms(1) obtain news where
    tr: "traverse (\<lambda>n. if mk n \<notin> set (map fst np)
                 then (case body n of Inl e \<Rightarrow> Inl e | Inr c \<Rightarrow> Inr [c])
                 else Inr []) news = Inr cs"
    by (auto simp: gap_candidates_def split: sum.splits)
  have "fst c \<notin> fst ` set np" if "c \<in> set cs" for c
  proof -
    from traverse_Inr_mem [OF tr that] obtain n ds where
      n: "(if mk n \<notin> set (map fst np)
                 then (case body n of Inl e \<Rightarrow> Inl e | Inr c \<Rightarrow> Inr [c])
                 else Inr []) = Inr ds" "c \<in> set ds"
      by auto
    then have "mk n \<notin> fst ` set np" by (auto split: if_splits)
    moreover from n have "body n = Inr c" by (auto split: if_splits sum.splits)
    ultimately show ?thesis using assms(2) by auto
  qed
  then show ?thesis by blast
qed

lemma axis_pass_total:
  assumes "\<And>k vs i. (k, vs) \<in> set ax \<Longrightarrow> Suc i < length vs \<Longrightarrow>
             gap k (vs ! i) (vs ! Suc i) = Inr (h k (vs ! i) (vs ! Suc i))"
  shows "axis_pass gap ax =
           Inr (concat (map (\<lambda>(k, vs). concat (map (\<lambda>i. h k (vs ! i) (vs ! Suc i)) [0..<length vs - 1])) ax))"
proof -
  have inner: "traverse (\<lambda>i. gap k (vs ! i) (vs ! (i + 1))) [0..<length vs - 1]
               = Inr (concat (map (\<lambda>i. h k (vs ! i) (vs ! Suc i)) [0..<length vs - 1]))"
    if "(k, vs) \<in> set ax" for k vs
    by (rule traverse_total) (use that assms in auto)
  show ?thesis
    unfolding axis_pass_def
    by (rule traverse_total [where g = "\<lambda>(k, vs). concat (map (\<lambda>i. h k (vs ! i) (vs ! Suc i)) [0..<length vs - 1])"])
       (use inner in auto)
qed

lemma axis_pass_guard:
  assumes "axis_pass gap ax = Inr cs"
    and "\<And>k cur nxt ds. gap k cur nxt = Inr ds \<Longrightarrow> fst ` set ds \<inter> K = {}"
  shows "fst ` set cs \<inter> K = {}"
proof -
  have "fst c \<notin> K" if "c \<in> set cs" for c
  proof -
    from traverse_Inr_mem [OF assms(1) [unfolded axis_pass_def] that]
    obtain k vs ds where kv: "(k, vs) \<in> set ax"
      and ds: "traverse (\<lambda>i. gap k (vs ! i) (vs ! (i + 1))) [0..<length vs - 1] = Inr ds"
      and c: "c \<in> set ds"
      by auto
    from traverse_Inr_mem [OF ds c] obtain i es where
      "gap k (vs ! i) (vs ! (i + 1)) = Inr es" "c \<in> set es"
      by auto
    with assms(2) show ?thesis by blast
  qed
  then show ?thesis by auto
qed

lemma col_candidate_key: "col_candidate crm col cur nxt n = Inr c \<Longrightarrow> fst c = (col, n)"
  by (auto simp: col_candidate_def Let_def split: sum.splits if_splits prod.splits)

lemma row_candidate_key: "row_candidate crm row cur nxt n = Inr c \<Longrightarrow> fst c = (n, row)"
  by (auto simp: row_candidate_def Let_def split: sum.splits if_splits prod.splits)

lemma col_pass_guard:
  "col_pass crm np T ctr = Inr cs \<Longrightarrow> fst ` set cs \<inter> fst ` set np = {}"
  unfolding col_pass_def
  by (erule axis_pass_guard) (auto simp: col_gap_def dest!: gap_candidates_guard dest: col_candidate_key)

lemma row_pass_guard:
  "row_pass crm np T rtc = Inr cs \<Longrightarrow> fst ` set cs \<inter> fst ` set np = {}"
  unfolding row_pass_def
  by (erule axis_pass_guard) (auto simp: row_gap_def dest!: gap_candidates_guard dest: row_candidate_key)

lemma generate_candidates_guard:
  assumes "generate_candidates dps T = Inr cs"
  shows "fst ` set cs \<inter> fst ` set (col_row_map dps) = {}"
proof -
  from assms obtain as bs where
    "col_pass (col_row_map dps) (col_row_map dps) T (col_to_rows dps) = Inr as"
    "row_pass (col_row_map dps) (col_row_map dps) T (row_to_cols dps) = Inr bs"
    "cs = as @ bs"
    by (auto simp: generate_candidates_def new_points_copy Let_def split: sum.splits)
  with col_pass_guard row_pass_guard show ?thesis
    by (metis Int_Un_distrib2 Un_empty image_Un set_append)
qed

section \<open>The merged output\<close>

lemma map_of_sort_key:
  assumes "distinct (map fst xs)"
  shows "map_of (sort_key f xs) = map_of xs"
proof -
  from assms have "distinct (map fst (sort_key f xs))"
    by (simp add: distinct_map)
  with assms show ?thesis
    by (simp add: map_of_inject_set)
qed

lemma fold_add_distinct:
  "distinct (map fst np) \<Longrightarrow>
   distinct (map fst (fold (\<lambda>((k, (x, y)), z) m. AList.update k (x, y, z) m) ps np))"
  by (induction ps arbitrary: np) (auto simp: AList.distinct_update split: prod.splits)

lemma fold_add_other:
  "k \<notin> fst ` fst ` set ps \<Longrightarrow>
   map_of (fold (\<lambda>((k, (x, y)), z) m. AList.update k (x, y, z) m) ps np) k = map_of np k"
  by (induction ps arbitrary: np) (auto simp: AList.update_conv' split: prod.splits)

lemma fold_add_keys:
  "fst ` set (fold (\<lambda>((k, (x, y)), z) m. AList.update k (x, y, z) m) ps np)
     = fst ` set np \<union> fst ` fst ` set ps"
  by (induction ps arbitrary: np) (auto simp: AList.dom_update split: prod.splits)


section \<open>The example inputs, evaluated\<close>

lemma cross_axis: "col_to_rows cross_points = [(1, [0, 2]), (0, [1]), (2, [1])]"
  by (simp add: col_to_rows_def axis_index_def cross_points_def pt_def group_step_def)

lemma cross_axis2: "row_to_cols cross_points = [(0, [1]), (2, [1]), (1, [0, 2])]"
  by (simp add: row_to_cols_def axis_index_def cross_points_def pt_def group_step_def)

lemma cross_crm: "col_row_map cross_points = [((1, 0), 10, 0, 5), ((1, 2), 10, 20, 6), ((0, 1), 0, 10, 7), ((2, 1), 30, 10, 8)]"
  by (simp add: col_row_map_def cross_points_def pt_def)

lemma cross_cands: "generate_candidates cross_points 1 = Inr [((1, 1), 10, 10), ((1, 1), 15, 10)]"
  by (simp add: generate_candidates_def cross_axis cross_axis2 cross_crm col_pass_def row_pass_def axis_pass_def
     col_gap_def row_gap_def gap_candidates_def py_range_def col_candidate_def row_candidate_def lookup_def Let_def)

lemma cross_estimate:
  "estimate_z nearest_lib Linear (map (\<lambda>p. (p_x p, p_y p)) cross_points) (map p_z cross_points) [(10, 10), (15, 10)] = ([5, 5], 0)"
  by (simp add: estimate_z_def griddata_def nearest_lib_def cross_points_def pt_def sqdist_def)

lemma cross_densify:
  "densify nearest_lib cross_points 1 Linear =
     Inr \<lparr>candidates = [((1, 1), 10, 10), ((1, 1), 15, 10)], nan_count = 0,
        new_points =
          [((1, 0), 10, 0, 5), ((1, 2), 10, 20, 6), ((0, 1), 0, 10, 7),
           ((2, 1), 30, 10, 8), ((1, 1), 15, 10, 5)],
        sorted_points =
          [((0, 1), 0, 10, 7), ((1, 0), 10, 0, 5), ((1, 1), 15, 10, 5),
           ((1, 2), 10, 20, 6), ((2, 1), 30, 10, 8)]\<rparr>"
  by (simp add: densify_def cross_cands cross_estimate cross_crm add_results_def less_eq_prod_def less_prod_def)


section \<open>Original points are kept\<close>

lemma densify_new_points:
  assumes "densify lib dps T m = Inr d"
  shows "\<exists>zs. generate_candidates dps T = Inr (candidates d)
          \<and> new_points d = add_results (candidates d) zs (col_row_map dps)
          \<and> sorted_points d = sort_key fst (new_points d)"
proof -
  from assms obtain cands where g: "generate_candidates dps T = Inr cands"
    by (auto simp: densify_def split: sum.splits)
  show ?thesis
  proof (cases "cands = []")
    case True
    with assms g show ?thesis
      by (auto simp: densify_def Let_def new_points_copy add_results_def)
  next
    case False
    obtain zs nans where e: "estimate_z lib m (map (\<lambda>p. (p_x p, p_y p)) dps) (map p_z dps) (map snd cands) = (zs, nans)"
      by (cases "estimate_z lib m (map (\<lambda>p. (p_x p, p_y p)) dps) (map p_z dps) (map snd cands)")
    with assms g False show ?thesis
      by (auto simp: densify_def Let_def new_points_copy)
  qed
qed

lemma densify_distinct:
  assumes "densify lib dps T m = Inr d"
  shows "distinct (map fst (new_points d))"
proof -
  from densify_new_points [OF assms] obtain zs where
    "new_points d = add_results (candidates d) zs (col_row_map dps)" by blast
  then show ?thesis
    unfolding add_results_def using fold_add_distinct [OF col_row_map_distinct] by simp
qed

text \<open>
  C10: every key of the Point Store is in the final output mapping, and in the sorted
  output sequence, with exactly its original \<open>(x, y, z)\<close> triple: neither the gap
  generation nor the insertion of the candidates overwrites an original point. This holds
  for every target spacing and every interpolation, whenever the run reaches its output.
\<close>

theorem originals_kept:
  assumes "densify lib dps T m = Inr d"
    and "map_of (col_row_map dps) k = Some v"
  shows "map_of (new_points d) k = Some v \<and> map_of (sorted_points d) k = Some v"
proof -
  from densify_new_points [OF assms(1)] obtain zs where
    g: "generate_candidates dps T = Inr (candidates d)"
    and n: "new_points d = add_results (candidates d) zs (col_row_map dps)"
    and s: "sorted_points d = sort_key fst (new_points d)" by blast
  from assms(2) have "k \<in> fst ` set (col_row_map dps)"
    by (metis domI dom_map_of_conv_image_fst)
  with generate_candidates_guard [OF g] have "k \<notin> fst ` set (candidates d)" by blast
  then have "k \<notin> fst ` fst ` set (zip (candidates d) zs)"
  proof (rule contrapos_nn)
    assume "k \<in> fst ` fst ` set (zip (candidates d) zs)"
    then obtain c z where "(c, z) \<in> set (zip (candidates d) zs)" "k = fst c" by auto
    then have "c \<in> set (candidates d)" "k = fst c" by (auto dest: set_zip_leftD)
    then show "k \<in> fst ` set (candidates d)" by blast
  qed
  then have "map_of (new_points d) k = map_of (col_row_map dps) k"
    unfolding n add_results_def by (rule fold_add_other)
  moreover have "map_of (sort_key fst (new_points d)) = map_of (new_points d)"
    by (rule map_of_sort_key [OF densify_distinct [OF assms(1)]])
  ultimately show ?thesis using assms(2) s by simp
qed


theorem originals_kept_witness:
  "densify nearest_lib cross_points 1 Linear \<noteq> Inl ValueError
   \<and> map_of (col_row_map cross_points) (2, 1) = Some (30, 10, 8)
   \<and> map_of (sorted_points (projr (densify nearest_lib cross_points 1 Linear))) (2, 1) = Some (30, 10, 8)"
  using originals_kept [of nearest_lib cross_points 1 Linear _ "(2, 1)" "(30, 10, 8)"]
  by (simp add: cross_densify cross_crm)

section \<open>Reading: header and data lines\<close>

lemma marker_passed: "is_marker line \<Longrightarrow> passed_through line"
  by (cases "strip line") (auto simp: is_marker_def passed_through_def startswith_def)

lemma read_after_header:
  "fold (read_line ps) lines (h, d, False) =
     (h @ filter passed_through lines,
      d @ List.map_filter (\<lambda>l. parse_point ps (split (strip l))) (filter (\<lambda>l. \<not> passed_through l) lines),
      False)"
proof (induction lines arbitrary: h d)
  case Nil
  show ?case by (simp add: List.map_filter_simps)
next
  case (Cons l lines)
  show ?case
  proof (cases "passed_through l")
    case True
    then have "read_line ps l (h, d, False) = (h @ [l], d, False)"
      by (auto simp: read_line_def passed_through_def Let_def)
    with True show ?thesis by (simp add: Cons.IH)
  next
    case False
    then have "read_line ps l (h, d, False) =
        (case parse_point ps (split (strip l)) of Some p \<Rightarrow> (h, d @ [p], False) | None \<Rightarrow> (h, d, False))"
      by (auto simp: read_line_def passed_through_def Let_def)
    with False show ?thesis
      by (simp add: Cons.IH List.map_filter_simps split: option.splits)
  qed
qed

lemma read_in_header:
  "fold (read_line ps) lines (h, d, True) =
     (if dropWhile (\<lambda>l. \<not> is_marker l) lines = [] then (h @ lines, d, True)
      else fold (read_line ps) (tl (dropWhile (\<lambda>l. \<not> is_marker l) lines))
             (h @ takeWhile (\<lambda>l. \<not> is_marker l) lines @ [hd (dropWhile (\<lambda>l. \<not> is_marker l) lines)],
              d, False))"
proof (induction lines arbitrary: h)
  case Nil
  show ?case by simp
next
  case (Cons l lines)
  show ?case
  proof (cases "is_marker l")
    case True
    then have "read_line ps l (h, d, True) = (h @ [l], d, False)"
      by (simp add: read_line_def is_marker_def Let_def)
    with True show ?thesis by simp
  next
    case False
    then have "read_line ps l (h, d, True) = (h @ [l], d, True)"
      by (simp add: read_line_def is_marker_def Let_def)
    with False show ?thesis by (simp add: Cons.IH)
  qed
qed

text \<open>
  C8, as amended: the header lines returned by \<^verbatim>\<open>read_horizon_file\<close> are all lines
  up to and including the first line whose stripped content begins with \<^verbatim>\<open># End:\<close>,
  followed by every later line that is blank or begins with \<^verbatim>\<open>#\<close> once stripped, all
  verbatim and in order; the data points are parsed from the remaining lines after the
  marker and from no other line. Without a marker line every line is a header line and
  there is no data point.
\<close>

theorem header_and_data:
  "read_horizon_file ps (Content lines) =
     Inr (takeWhile (\<lambda>l. \<not> is_marker l) lines
            @ take 1 (dropWhile (\<lambda>l. \<not> is_marker l) lines)
            @ filter passed_through (drop 1 (dropWhile (\<lambda>l. \<not> is_marker l) lines)),
          List.map_filter (\<lambda>l. parse_point ps (split (strip l)))
            (filter (\<lambda>l. \<not> passed_through l) (drop 1 (dropWhile (\<lambda>l. \<not> is_marker l) lines))))"
proof (cases "dropWhile (\<lambda>l. \<not> is_marker l) lines = []")
  case True
  then have t: "takeWhile (\<lambda>l. \<not> is_marker l) lines = lines" by simp
  have "fold (read_line ps) lines ([], [], True) = (lines, [], True)"
    unfolding read_in_header using True by simp
  then show ?thesis
    unfolding True t by (simp add: read_horizon_file_def List.map_filter_simps)
next
  case False
  then obtain mk rest where r: "dropWhile (\<lambda>l. \<not> is_marker l) lines = mk # rest"
    by (cases "dropWhile (\<lambda>l. \<not> is_marker l) lines") auto
  have "fold (read_line ps) lines ([], [], True) =
          fold (read_line ps) rest (takeWhile (\<lambda>l. \<not> is_marker l) lines @ [mk], [], False)"
    unfolding read_in_header r by simp
  then show ?thesis
    by (simp add: read_horizon_file_def read_after_header r)
qed

lemma strip_ex1: "strip ''# End:'' = ''# End:''" by (simp add: strip_def is_space_def)
lemma strip_ex2: "strip ''# note'' = ''# note''" by (simp add: strip_def is_space_def)
lemma strip_ex3: "strip ''1 2 3 4 5'' = ''1 2 3 4 5''" by (simp add: strip_def is_space_def)
lemma split_ex3: "split ''1 2 3 4 5'' = [''1'', ''2'', ''3'', ''4'', ''5'']"
  by (simp add: split_def is_space_def)
lemma parse_ex3: "parse_point literal_parser [''1'', ''2'', ''3'', ''4'', ''5''] = Some (pt 4 5 1 2 3)"
  by (simp add: parse_point_def literal_parser_def int_literal_def pt_def)

lemma read_example:
  "read_horizon_file literal_parser (Content [''# End:'', ''1 2 3 4 5'', ''# note''])
     = Inr ([''# End:'', ''# note''], [pt 4 5 1 2 3])"
  by (simp add: read_horizon_file_def read_line_def strip_ex1 strip_ex2 strip_ex3 split_ex3 parse_ex3
      startswith_def)

text \<open>
  The header lines are not just the lines up to the marker: a comment after the marker
  is a header line too.
\<close>

theorem header_prefix_counterexample:
  "fst (projr (read_horizon_file literal_parser (Content [''# End:'', ''1 2 3 4 5'', ''# note''])))
     \<noteq> takeWhile (\<lambda>l. \<not> is_marker l) [''# End:'', ''1 2 3 4 5'', ''# note'']
         @ take 1 (dropWhile (\<lambda>l. \<not> is_marker l) [''# End:'', ''1 2 3 4 5'', ''# note''])"
  by (simp add: read_example is_marker_def strip_ex1 startswith_def)

text \<open>
  C9: when no data point is parsed, the run prints the diagnostic after the count of
  points read, writes no output file and returns; nothing is computed or printed after
  the diagnostic.
\<close>

theorem empty_input_soft_stop:
  assumes "read_horizon_file ps input = Inr (header_lines, [])"
  shows "interpolate_horizon ps lib input target_spacing m =
           \<lparr>printed = [Msg_Banner, Msg_Reading, Msg_Read_Count 0, Msg_No_Data],
            written = None, ending = Returned\<rparr>"
  using assms by (simp add: interpolate_horizon_def)

lemma strip_ex4: "strip ''x y'' = ''x y''" by (simp add: strip_def is_space_def)
lemma split_ex4: "split ''x y'' = [''x'', ''y'']" by (simp add: split_def is_space_def)

lemma read_no_data:
  "read_horizon_file literal_parser (Content [''# End:'', ''x y'']) = Inr ([''# End:''], [])"
  by (simp add: read_horizon_file_def read_line_def strip_ex1 strip_ex4 split_ex4 parse_point_def startswith_def)

theorem empty_input_soft_stop_witness:
  "read_horizon_file literal_parser (Content [''# End:'', ''x y'']) = Inr ([''# End:''], [])
   \<and> interpolate_horizon literal_parser nearest_lib (Content [''# End:'', ''x y'']) 2 Linear =
           \<lparr>printed = [Msg_Banner, Msg_Reading, Msg_Read_Count 0, Msg_No_Data],
            written = None, ending = Returned\<rparr>"
  using empty_input_soft_stop [OF read_no_data, of nearest_lib 2 Linear] read_no_data by simp

end
